theory Spec2Isabelle
  imports Main "HOL-Library.Char_ord"
begin

section \<open>Regular expressions of the field validators\<close>

text \<open>
  The validators of \<^verbatim>\<open>Signup.tsx\<close> are \<^verbatim>\<open>new RegExp(...).test(s)\<close> calls. The patterns
  use character classes, literal characters, the wildcard \<^verbatim>\<open>.\<close>, concatenation, the
  quantifiers \<^verbatim>\<open>?\<close>, \<^verbatim>\<open>*\<close>, \<^verbatim>\<open>+\<close>, \<^verbatim>\<open>{m,n}\<close> and the anchors \<^verbatim>\<open>^\<close> and \<^verbatim>\<open>$\<close>
  around the whole pattern. No flag is given, so \<^verbatim>\<open>$\<close> is the end of the input and
  \<^verbatim>\<open>.\<close> is any character but a line terminator. A pattern without back references or
  look-around that is anchored at both ends accepts a string exactly when the whole
  string belongs to the language of the pattern, so \<^verbatim>\<open>test\<close> is language membership.

  A JavaScript string is a sequence of UTF-16 code units; a \<open>char\<close> here stands for one
  code unit below 256. \<open>Void\<close>, \<open>Epsilon\<close> and \<open>Alt\<close> do not occur in the source patterns;
  the matcher needs them for its intermediate expressions.
\<close>

datatype citem = Ch char | FromTo char char

datatype regex =
    Void
  | Epsilon
  | Lit char
  | Chars "citem list"
  | AnyChar
  | Cat regex regex
  | Alt regex regex
  | Opt regex
  | Star regex
  | Plus regex
  | Rep nat nat regex

fun in_item :: "char \<Rightarrow> citem \<Rightarrow> bool" where
  "in_item c (Ch d) = (c = d)"
| "in_item c (FromTo lo hi) = (lo \<le> c \<and> c \<le> hi)"

definition in_class :: "citem list \<Rightarrow> char \<Rightarrow> bool" where
  "in_class items c = list_ex (in_item c) items"

definition line_terminator :: "char \<Rightarrow> bool" where
  "line_terminator c = (c = CHR 0x0A \<or> c = CHR 0x0D)"

primrec nullable :: "regex \<Rightarrow> bool" where
  "nullable Void = False"
| "nullable Epsilon = True"
| "nullable (Lit d) = False"
| "nullable (Chars items) = False"
| "nullable AnyChar = False"
| "nullable (Cat r1 r2) = (nullable r1 \<and> nullable r2)"
| "nullable (Alt r1 r2) = (nullable r1 \<or> nullable r2)"
| "nullable (Opt r) = True"
| "nullable (Star r) = True"
| "nullable (Plus r) = nullable r"
| "nullable (Rep lo hi r) = (lo \<le> hi \<and> (lo = 0 \<or> nullable r))"

text \<open>\<open>deriv c r\<close> matches what \<open>r\<close> can still match after reading \<open>c\<close>.\<close>

primrec deriv :: "char \<Rightarrow> regex \<Rightarrow> regex" where
  "deriv c Void = Void"
| "deriv c Epsilon = Void"
| "deriv c (Lit d) = (if c = d then Epsilon else Void)"
| "deriv c (Chars items) = (if in_class items c then Epsilon else Void)"
| "deriv c AnyChar = (if line_terminator c then Void else Epsilon)"
| "deriv c (Cat r1 r2) =
     (if nullable r1 then Alt (Cat (deriv c r1) r2) (deriv c r2) else Cat (deriv c r1) r2)"
| "deriv c (Alt r1 r2) = Alt (deriv c r1) (deriv c r2)"
| "deriv c (Opt r) = deriv c r"
| "deriv c (Star r) = Cat (deriv c r) (Star r)"
| "deriv c (Plus r) = Cat (deriv c r) (Star r)"
| "deriv c (Rep lo hi r) =
     (if hi = 0 then Void else Cat (deriv c r) (Rep (lo - 1) (hi - 1) r))"

primrec derivs :: "string \<Rightarrow> regex \<Rightarrow> regex" where
  "derivs [] r = r"
| "derivs (c # cs) r = derivs cs (deriv c r)"

text \<open>\<^verbatim>\<open>new RegExp("^...$").test(s)\<close> for the pattern \<open>r\<close> between the anchors.\<close>

definition test :: "regex \<Rightarrow> string \<Rightarrow> bool" where
  "test r s = nullable (derivs s r)"

subsection \<open>The languages of the patterns\<close>

text \<open>
  The textbook meaning of a pattern, as a set of strings. It is not executable; the
  matcher above is proved to decide it.
\<close>

definition conc :: "string set \<Rightarrow> string set \<Rightarrow> string set" where
  "conc A B = {w. \<exists>u v. w = u @ v \<and> u \<in> A \<and> v \<in> B}"

primrec lpow :: "string set \<Rightarrow> nat \<Rightarrow> string set" where
  "lpow A 0 = {[]}"
| "lpow A (Suc n) = conc A (lpow A n)"

definition star :: "string set \<Rightarrow> string set" where
  "star A = (\<Union>n. lpow A n)"

definition between :: "string set \<Rightarrow> nat \<Rightarrow> nat \<Rightarrow> string set" where
  "between A lo hi = (\<Union>k\<in>{lo..hi}. lpow A k)"

primrec lang :: "regex \<Rightarrow> string set" where
  "lang Void = {}"
| "lang Epsilon = {[]}"
| "lang (Lit d) = {[d]}"
| "lang (Chars items) = {w. \<exists>c. w = [c] \<and> in_class items c}"
| "lang AnyChar = {w. \<exists>c. w = [c] \<and> \<not> line_terminator c}"
| "lang (Cat r1 r2) = conc (lang r1) (lang r2)"
| "lang (Alt r1 r2) = lang r1 \<union> lang r2"
| "lang (Opt r) = insert [] (lang r)"
| "lang (Star r) = star (lang r)"
| "lang (Plus r) = conc (lang r) (star (lang r))"
| "lang (Rep lo hi r) = between (lang r) lo hi"

definition lquot :: "char \<Rightarrow> string set \<Rightarrow> string set" where
  "lquot c A = {w. c # w \<in> A}"

section \<open>Field validators\<close>

text \<open>\<^verbatim>\<open>const isPasswordValid = (password: string) => password.length >= 6;\<close>\<close>

definition isPasswordValid :: "string \<Rightarrow> bool" where
  "isPasswordValid password = (length password \<ge> 6)"

text \<open>
  The pattern of \<^verbatim>\<open>isEmailValid\<close>, piece by piece:
  \<^verbatim>\<open>[a-zA-Z0-9.!#$%&'*+/=?^_`{|}~-]\<close> is \<open>localClass\<close>, \<^verbatim>\<open>[a-zA-Z0-9]\<close> is \<open>alnumClass\<close>,
  \<^verbatim>\<open>[a-zA-Z0-9-]\<close> is \<open>alnumHyphenClass\<close>, and
  \<^verbatim>\<open>[a-zA-Z0-9](?:[a-zA-Z0-9-]{0,61}[a-zA-Z0-9])?\<close>, which occurs twice, is \<open>labelRegex\<close>.
  The character between two labels is written \<^verbatim>\<open>.\<close> in the source string, with no
  backslash, so it is the wildcard \<open>AnyChar\<close>.
\<close>

definition localClass :: "citem list" where
  "localClass =
     [FromTo CHR ''a'' CHR ''z'', FromTo CHR ''A'' CHR ''Z'', FromTo CHR ''0'' CHR ''9'',
      Ch CHR ''.'', Ch CHR ''!'', Ch CHR ''#'', Ch CHR ''$'', Ch CHR ''%'', Ch CHR ''&'',
      Ch CHR 0x27, Ch CHR ''*'', Ch CHR ''+'', Ch CHR ''/'', Ch CHR ''='', Ch CHR ''?'',
      Ch CHR ''^'', Ch CHR ''_'', Ch CHR 0x60, Ch CHR ''{'', Ch CHR ''|'', Ch CHR ''}'',
      Ch CHR ''~'', Ch CHR ''-'']"

definition alnumClass :: "citem list" where
  "alnumClass = [FromTo CHR ''a'' CHR ''z'', FromTo CHR ''A'' CHR ''Z'', FromTo CHR ''0'' CHR ''9'']"

definition alnumHyphenClass :: "citem list" where
  "alnumHyphenClass =
     [FromTo CHR ''a'' CHR ''z'', FromTo CHR ''A'' CHR ''Z'', FromTo CHR ''0'' CHR ''9'',
      Ch CHR ''-'']"

definition labelRegex :: regex where
  "labelRegex =
     Cat (Chars alnumClass) (Opt (Cat (Rep 0 61 (Chars alnumHyphenClass)) (Chars alnumClass)))"

definition emailRegex :: regex where
  "emailRegex =
     Cat (Plus (Chars localClass))
       (Cat (Lit CHR ''@'')
         (Cat labelRegex (Star (Cat AnyChar labelRegex))))"

definition isEmailValid :: "string \<Rightarrow> bool" where
  "isEmailValid email = (email \<noteq> [] \<and> test emailRegex email)"

text \<open>\<^verbatim>\<open>new RegExp("^[-a-zA-Z0-9_.]{1,21}$").test(username)\<close>\<close>

definition usernameClass :: "citem list" where
  "usernameClass =
     [Ch CHR ''-'', FromTo CHR ''a'' CHR ''z'', FromTo CHR ''A'' CHR ''Z'',
      FromTo CHR ''0'' CHR ''9'', Ch CHR ''_'', Ch CHR ''.'']"

definition usernameRegex :: regex where
  "usernameRegex = Rep 1 21 (Chars usernameClass)"

definition isUsernameValid :: "string \<Rightarrow> bool" where
  "isUsernameValid username = test usernameRegex username"

text \<open>\<^verbatim>\<open>const isNotEmpty = s => s.length > 0;\<close>\<close>

definition isNotEmpty :: "string \<Rightarrow> bool" where
  "isNotEmpty s = (length s > 0)"

section \<open>The documented patterns\<close>

text \<open>
  The character sets that the specification names: letters and digits are the ASCII
  ones, \<^verbatim>\<open>{A-Z,a-z,0-9}\<close>.
\<close>

definition letter :: "char \<Rightarrow> bool" where
  "letter c = ((CHR ''a'' \<le> c \<and> c \<le> CHR ''z'') \<or> (CHR ''A'' \<le> c \<and> c \<le> CHR ''Z''))"

definition digit :: "char \<Rightarrow> bool" where
  "digit c = (CHR ''0'' \<le> c \<and> c \<le> CHR ''9'')"

definition alnum :: "char \<Rightarrow> bool" where
  "alnum c = (letter c \<or> digit c)"

text \<open>
  The specification names the local-part character class without listing it; it is
  taken from the source pattern.
\<close>

definition localChar :: "char \<Rightarrow> bool" where
  "localChar c = in_class localClass c"

text \<open>Two hyphens next to each other somewhere in the string.\<close>

fun consecutive_hyphens :: "string \<Rightarrow> bool" where
  "consecutive_hyphens (a # b # cs) =
     ((a = CHR ''-'' \<and> b = CHR ''-'') \<or> consecutive_hyphens (b # cs))"
| "consecutive_hyphens cs = False"

text \<open>
  A label of 1 to 63 alphanumeric-or-hyphen characters with no leading and no trailing
  hyphen; the documented label has no consecutive hyphens either.
\<close>

definition plain_label :: "string \<Rightarrow> bool" where
  "plain_label w =
     (1 \<le> length w \<and> length w \<le> 63 \<and> list_all (\<lambda>c. alnum c \<or> c = CHR ''-'') w \<and>
      hd w \<noteq> CHR ''-'' \<and> last w \<noteq> CHR ''-'')"

definition documented_label :: "string \<Rightarrow> bool" where
  "documented_label w = (plain_label w \<and> \<not> consecutive_hyphens w)"

text \<open>A label-like piece of which only the ends are known: it begins and ends alphanumeric.\<close>

definition edge_label :: "string \<Rightarrow> bool" where
  "edge_label w = (w \<noteq> [] \<and> alnum (hd w) \<and> alnum (last w))"

text \<open>The pieces of a string between its literal dots, as \<^verbatim>\<open>s.split(".")\<close> gives them.\<close>

fun split_dots :: "string \<Rightarrow> string list" where
  "split_dots [] = [[]]"
| "split_dots (c # cs) =
     (if c = CHR ''.'' then [] # split_dots cs
      else (case split_dots cs of [] \<Rightarrow> [[c]] | w # ws \<Rightarrow> (c # w) # ws))"

fun join_dots :: "string list \<Rightarrow> string" where
  "join_dots [] = []"
| "join_dots [w] = w"
| "join_dots (w # ws) = w @ CHR ''.'' # join_dots ws"

text \<open>
  The shape \<^emph>\<open>local part, \<^verbatim>\<open>@\<close>, labels separated by literal dots\<close>, for a given notion
  of label: the local part is what precedes the first \<^verbatim>\<open>@\<close> (which is no local-part
  character), it is not empty and made of local-part characters, the \<^verbatim>\<open>@\<close> is there, and
  every piece between the dots of what follows it is a label.
\<close>

definition email_pattern :: "(string \<Rightarrow> bool) \<Rightarrow> string \<Rightarrow> bool" where
  "email_pattern label s =
     (let local = takeWhile (\<lambda>c. c \<noteq> CHR ''@'') s;
          rest = dropWhile (\<lambda>c. c \<noteq> CHR ''@'') s
      in local \<noteq> [] \<and> list_all localChar local \<and> rest \<noteq> [] \<and>
         list_all label (split_dots (tl rest)))"

text \<open>The pattern as the specification documents it.\<close>

definition documented_email :: "string \<Rightarrow> bool" where
  "documented_email s = (s \<noteq> [] \<and> email_pattern documented_label s)"

section \<open>The signup form\<close>

datatype SignupType = JoinTeam | CreateTeam

text \<open>The props of the component; an absent prop is \<open>None\<close>.\<close>

record Props =
  props_email :: "string option"
  props_teamName :: "string option"
  props_teamId :: "string option"
  props_inviteCode :: "string option"
  props_type :: "SignupType option"

text \<open>The thirteen \<^verbatim>\<open>useState\<close> cells of the component.\<close>

record FormState =
  email :: string
  emailValidity :: bool
  username :: string
  usernameValidity :: bool
  password :: string
  passwordValidity :: bool
  fullName :: string
  fullNameValidity :: bool
  companyName :: string
  companyNameValidity :: bool
  isLoading :: bool
  unexpectedError :: bool
  inviteConflict :: bool

text \<open>The state of the first render: \<^verbatim>\<open>useState(props.email || "")\<close> and the other initial values.\<close>

definition initialState :: "Props \<Rightarrow> FormState" where
  "initialState props =
     \<lparr>email = (case props_email props of None \<Rightarrow> [] | Some e \<Rightarrow> e),
      emailValidity = True,
      username = [], usernameValidity = True,
      password = [], passwordValidity = True,
      fullName = [], fullNameValidity = True,
      companyName = [], companyNameValidity = True,
      isLoading = False, unexpectedError = False, inviteConflict = False\<rparr>"

text \<open>\<^verbatim>\<open>const wasInvited = props.inviteCode !== undefined;\<close>\<close>

definition wasInvited :: "Props \<Rightarrow> bool" where
  "wasInvited props = (props_inviteCode props \<noteq> None)"

text \<open>
  \<^verbatim>\<open>onValidityChanged\<close>: a switch on the field name that calls the setter of one
  validity flag; the default branch is empty.
\<close>

definition onValidityChanged :: "string \<Rightarrow> bool \<Rightarrow> FormState \<Rightarrow> FormState" where
  "onValidityChanged field validity st =
     (if field = ''email'' then st\<lparr>emailValidity := validity\<rparr>
      else if field = ''username'' then st\<lparr>usernameValidity := validity\<rparr>
      else if field = ''password'' then st\<lparr>passwordValidity := validity\<rparr>
      else if field = ''fullName'' then st\<lparr>fullNameValidity := validity\<rparr>
      else if field = ''companyName'' then st\<lparr>companyNameValidity := validity\<rparr>
      else st)"

subsection \<open>What the submit handler talks to\<close>

text \<open>
  The object literal \<^verbatim>\<open>attributes\<close> that is sent to the registration endpoint. A
  property whose value is \<^verbatim>\<open>undefined\<close> is \<open>None\<close>.
\<close>

record Attributes =
  attr_email :: string
  attr_username :: string
  attr_password :: string
  attr_fullName :: string
  attr_inviteCode :: "string option"
  attr_companyName :: "string option"

text \<open>
  \<^verbatim>\<open>LoginResult\<close> is declared outside this file. The handler names four of its values;
  every other value that the endpoint may answer is \<open>OtherStatus\<close>, carrying the text
  that the value has inside a template string.
\<close>

datatype LoginResult = Success | NotOnTeam | AlreadyConfirmed | InviteConflict | OtherStatus string

text \<open>
  How the awaited call \<^verbatim>\<open>HostApi.instance.send(RegisterUserRequestType, attributes)\<close>
  settles: it throws (the text of the error is carried), or it answers a status and
  an optional token.
\<close>

datatype Response = Throws string | Returns LoginResult "string option"

text \<open>The properties of the \<^verbatim>\<open>"Account Created"\<close> event and the context of \<^verbatim>\<open>logError\<close>.\<close>

record TrackProps =
  track_email :: string
  track_changedInviteEmail :: "bool option"

record LogContext =
  log_email :: string
  log_inviteCode :: "string option"

text \<open>The actions that the handler dispatches, with their arguments in source order.\<close>

datatype Action =
    goToEmailConfirmation string "string option" Attributes
  | goToTeamCreation "string option" string
  | completeSignup string "string option" "string option" bool

text \<open>Every call that leaves the component, in the order in which it is made.\<close>

datatype Effect =
    PreventDefault
  | Send Attributes
  | Track string TrackProps
  | Dispatch Action
  | LogError string LogContext

subsection \<open>The submit handler\<close>

text \<open>
  The condition of the \<^verbatim>\<open>if (...) return;\<close> of \<^verbatim>\<open>onSubmit\<close>. Its operands are the
  \<^verbatim>\<open>const\<close> bindings of the render that created the handler, so it is a function of
  the state \<open>s\<close> that was rendered, whatever the setters have been given since.
\<close>

definition gateBlocks :: "Props \<Rightarrow> FormState \<Rightarrow> bool" where
  "gateBlocks props s =
     (email s = [] \<or>
      \<not> emailValidity s \<or>
      \<not> usernameValidity s \<or>
      password s = [] \<or>
      \<not> passwordValidity s \<or>
      fullName s = [] \<or>
      \<not> fullNameValidity s \<or>
      (\<not> wasInvited props \<and> (companyName s = [] \<or> \<not> companyNameValidity s)))"

definition buildAttributes :: "Props \<Rightarrow> FormState \<Rightarrow> Attributes" where
  "buildAttributes props s =
     \<lparr>attr_email = email s,
      attr_username = username s,
      attr_password = password s,
      attr_fullName = fullName s,
      attr_inviteCode = props_inviteCode props,
      attr_companyName = (if wasInvited props then None else Some (companyName s))\<rparr>"

text \<open>
  \<^verbatim>\<open>sendTelemetry\<close>; \<^verbatim>\<open>email !== props.email\<close> compares a string with a string or
  \<^verbatim>\<open>undefined\<close>.
\<close>

definition sendTelemetry :: "Props \<Rightarrow> FormState \<Rightarrow> Effect" where
  "sendTelemetry props s =
     Track ''Account Created''
       \<lparr>track_email = email s,
        track_changedInviteEmail =
          (if wasInvited props then Some (Some (email s) \<noteq> props_email props) else None)\<rparr>"

text \<open>
  The body of the \<^verbatim>\<open>try\<close> block, from the state \<open>st\<close> that the setters have built so
  far. It gives the state, the calls made, and the thrown value if the block was left
  by a throw (\<open>None\<close> if it ran to its end).
\<close>

definition tryBlock ::
  "Props \<Rightarrow> FormState \<Rightarrow> Response \<Rightarrow> FormState \<Rightarrow> FormState \<times> Effect list \<times> string option" where
  "tryBlock props s response st =
     (let attributes = buildAttributes props s in
      case response of
        Throws error \<Rightarrow> (st, [Send attributes], Some error)
      | Returns status token \<Rightarrow>
          (case status of
             Success \<Rightarrow>
               (st,
                [Send attributes, sendTelemetry props s,
                 Dispatch (goToEmailConfirmation (attr_email attributes) (props_teamId props)
                   attributes)],
                None)
           | NotOnTeam \<Rightarrow>
               (st,
                [Send attributes, sendTelemetry props s,
                 Dispatch (goToTeamCreation token (attr_email attributes))],
                None)
           | AlreadyConfirmed \<Rightarrow>
               (st,
                [Send attributes, sendTelemetry props s,
                 Dispatch (completeSignup (attr_email attributes) token (props_teamId props)
                   False)],
                None)
           | InviteConflict \<Rightarrow> (st\<lparr>inviteConflict := True\<rparr>, [Send attributes], None)
           | OtherStatus text \<Rightarrow> (st, [Send attributes], Some text)))"

text \<open>
  \<^verbatim>\<open>onSubmit\<close>, for a registration call that settles as \<open>response\<close>. \<open>s\<close> is the
  rendered state that the handler reads; the setters build the next state, the last
  call of a setter giving the value of its cell. The result is the state after the
  attempt and the calls made during it.

  The calls \<^verbatim>\<open>track\<close>, \<^verbatim>\<open>dispatch\<close> and \<^verbatim>\<open>logError\<close> are taken to return, and no other
  event to write the state while the registration call is awaited. A registration call
  that never settles leaves the attempt suspended at the \<^verbatim>\<open>await\<close>, after
  \<^verbatim>\<open>setIsLoading(true)\<close>; such an attempt has no end and no \<open>response\<close>.
\<close>

definition onSubmit :: "Props \<Rightarrow> FormState \<Rightarrow> Response \<Rightarrow> FormState \<times> Effect list" where
  "onSubmit props s response =
     (let st = s\<lparr>inviteConflict := False\<rparr>;
          st = st\<lparr>unexpectedError := False\<rparr>;
          st = onValidityChanged ''email'' (isEmailValid (email s)) st;
          st = onValidityChanged ''password'' (isPasswordValid (password s)) st;
          st = onValidityChanged ''username'' (isUsernameValid (username s)) st;
          st = onValidityChanged ''fullName'' (isNotEmpty (fullName s)) st;
          st = onValidityChanged ''companyName'' (isNotEmpty (companyName s)) st
      in
      if gateBlocks props s then (st, [PreventDefault])
      else
        (case tryBlock props s response (st\<lparr>isLoading := True\<rparr>) of
           (st, calls, None) \<Rightarrow> (st\<lparr>isLoading := False\<rparr>, PreventDefault # calls)
         | (st, calls, Some error) \<Rightarrow>
             (st\<lparr>unexpectedError := True, isLoading := False\<rparr>,
              PreventDefault # calls @
                [LogError (''Unexpected error during registration request: '' @ error)
                   \<lparr>log_email = email s, log_inviteCode = props_inviteCode props\<rparr>])))"

text \<open>
  The state that the statements of \<^verbatim>\<open>onSubmit\<close> before its gate leave behind: both
  banners cleared and the five validity flags recomputed from the rendered text fields.
\<close>

definition afterValidation :: "FormState \<Rightarrow> FormState" where
  "afterValidation s =
     s\<lparr>inviteConflict := False, unexpectedError := False,
       emailValidity := isEmailValid (email s),
       passwordValidity := isPasswordValid (password s),
       usernameValidity := isUsernameValid (username s),
       fullNameValidity := isNotEmpty (fullName s),
       companyNameValidity := isNotEmpty (companyName s)\<rparr>"

subsection \<open>Sample inputs\<close>

text \<open>A form opened without an invitation, one opened from an invitation, and a filled form.\<close>

definition newUserProps :: Props where
  "newUserProps =
     \<lparr>props_email = None, props_teamName = None, props_teamId = None,
      props_inviteCode = None, props_type = None\<rparr>"

definition invitedProps :: Props where
  "invitedProps =
     \<lparr>props_email = Some ''ann@acme.io'', props_teamName = Some ''Acme'',
      props_teamId = Some ''t1'', props_inviteCode = Some ''inv42'',
      props_type = Some JoinTeam\<rparr>"

definition filledState :: FormState where
  "filledState =
     \<lparr>email = ''ann@acme.io'', emailValidity = True,
      username = ''ann'', usernameValidity = True,
      password = ''secret1'', passwordValidity = True,
      fullName = ''Ann Lee'', fullNameValidity = True,
      companyName = ''Acme'', companyNameValidity = True,
      isLoading = False, unexpectedError = False, inviteConflict = False\<rparr>"

section \<open>The matcher decides the language\<close>

lemma nil_in_conc: "[] \<in> conc A B \<longleftrightarrow> [] \<in> A \<and> [] \<in> B"
  by (auto simp: conc_def)

lemma concI: "u \<in> A \<Longrightarrow> v \<in> B \<Longrightarrow> u @ v \<in> conc A B"
  by (auto simp: conc_def)

lemma nil_in_lpow: "[] \<in> lpow A k \<longleftrightarrow> k = 0 \<or> [] \<in> A"
  by (induction k) (auto simp: nil_in_conc)

lemma between_iff: "w \<in> between A lo hi \<longleftrightarrow> (\<exists>k. lo \<le> k \<and> k \<le> hi \<and> w \<in> lpow A k)"
  by (auto simp: between_def)

lemma lquot_iff: "w \<in> lquot c A \<longleftrightarrow> c # w \<in> A"
  by (simp add: lquot_def)

lemma nil_in_star: "[] \<in> star A"
  unfolding star_def using nil_in_lpow [of A 0] by blast

lemma nil_in_between: "[] \<in> between A lo hi \<longleftrightarrow> lo \<le> hi \<and> (lo = 0 \<or> [] \<in> A)"
  by (auto simp: between_def nil_in_lpow)

lemma nullable_lang: "nullable r \<longleftrightarrow> [] \<in> lang r"
  by (induction r) (auto simp: nil_in_conc nil_in_star nil_in_between)

lemma lpow_grows: "[] \<in> A \<Longrightarrow> w \<in> lpow A n \<Longrightarrow> w \<in> lpow A (Suc n)"
  using concI [of "[]" A w "lpow A n"] by simp

lemma cons_in_lpow:
  "c # w \<in> lpow A k \<Longrightarrow> \<exists>u v n. k = Suc n \<and> w = u @ v \<and> c # u \<in> A \<and> v \<in> lpow A n"
proof (induction k)
  case 0
  then show ?case by simp
next
  case (Suc k)
  from Suc.prems obtain x y where xy: "c # w = x @ y" "x \<in> A" "y \<in> lpow A k"
    by (auto simp: conc_def)
  show ?case
  proof (cases x)
    case Nil
    with xy have "c # w \<in> lpow A k" by simp
    from Suc.IH [OF this] obtain u v n where
      h: "k = Suc n" "w = u @ v" "c # u \<in> A" "v \<in> lpow A n" by blast
    from Nil xy(2) have "[] \<in> A" by simp
    from lpow_grows [OF this h(4)] h show ?thesis by blast
  next
    case (Cons a u)
    with xy show ?thesis by auto
  qed
qed

lemma lquot_conc:
  "lquot c (conc A B) = conc (lquot c A) B \<union> (if [] \<in> A then lquot c B else {})"
proof (intro set_eqI iffI)
  fix w assume "w \<in> lquot c (conc A B)"
  then obtain x y where xy: "c # w = x @ y" "x \<in> A" "y \<in> B"
    by (auto simp: lquot_def conc_def)
  show "w \<in> conc (lquot c A) B \<union> (if [] \<in> A then lquot c B else {})"
  proof (cases x)
    case Nil
    with xy show ?thesis by (simp add: lquot_def)
  next
    case (Cons a u)
    with xy have "w = u @ y" "u \<in> lquot c A" by (auto simp: lquot_def)
    with xy(3) show ?thesis by (auto simp: conc_def)
  qed
next
  fix w assume "w \<in> conc (lquot c A) B \<union> (if [] \<in> A then lquot c B else {})"
  then consider (l) "w \<in> conc (lquot c A) B" | (r) "[] \<in> A" "w \<in> lquot c B"
    by (auto split: if_splits)
  then show "w \<in> lquot c (conc A B)"
  proof cases
    case l
    then obtain u v where "w = u @ v" "c # u \<in> A" "v \<in> B"
      by (auto simp: conc_def lquot_def)
    then show ?thesis using concI [of "c # u" A v B] by (simp add: lquot_def)
  next
    case r
    then show ?thesis using concI [of "[]" A "c # w" B] by (simp add: lquot_def)
  qed
qed

lemma lquot_star: "lquot c (star A) = conc (lquot c A) (star A)"
proof (intro set_eqI iffI)
  fix w assume "w \<in> lquot c (star A)"
  then obtain k where "c # w \<in> lpow A k" by (auto simp: lquot_def star_def)
  from cons_in_lpow [OF this] obtain u v n where
    "w = u @ v" "c # u \<in> A" "v \<in> lpow A n" by blast
  then show "w \<in> conc (lquot c A) (star A)"
    by (auto simp: conc_def lquot_def star_def)
next
  fix w assume "w \<in> conc (lquot c A) (star A)"
  then obtain u v n where h: "w = u @ v" "c # u \<in> A" "v \<in> lpow A n"
    by (auto simp: conc_def lquot_def star_def)
  then have "c # w \<in> lpow A (Suc n)" using concI [of "c # u" A v "lpow A n"] by simp
  then show "w \<in> lquot c (star A)" unfolding lquot_def star_def by blast
qed

lemma lquot_between:
  "lquot c (between A lo hi) =
     (if hi = 0 then {} else conc (lquot c A) (between A (lo - 1) (hi - 1)))"
proof (intro set_eqI iffI)
  fix w assume "w \<in> lquot c (between A lo hi)"
  then obtain k where k: "lo \<le> k" "k \<le> hi" "c # w \<in> lpow A k"
    by (auto simp: lquot_def between_def)
  from cons_in_lpow [OF k(3)] obtain u v n where
    h: "k = Suc n" "w = u @ v" "c # u \<in> A" "v \<in> lpow A n" by blast
  from k h(1) have "lo - 1 \<le> n" "n \<le> hi - 1" "hi \<noteq> 0" by auto
  with h(4) have "v \<in> between A (lo - 1) (hi - 1)" "hi \<noteq> 0"
    unfolding between_iff by blast+
  moreover from h(3) have "u \<in> lquot c A" by (simp add: lquot_iff)
  ultimately show "w \<in> (if hi = 0 then {} else conc (lquot c A) (between A (lo - 1) (hi - 1)))"
    using h(2) concI [of u "lquot c A" v] by simp
next
  fix w assume a: "w \<in> (if hi = 0 then {} else conc (lquot c A) (between A (lo - 1) (hi - 1)))"
  then have hi: "hi \<noteq> 0" by (auto split: if_splits)
  with a have "w \<in> conc (lquot c A) (between A (lo - 1) (hi - 1))" by simp
  then obtain u v where uv: "w = u @ v" "c # u \<in> A" "v \<in> between A (lo - 1) (hi - 1)"
    by (auto simp: conc_def lquot_iff)
  from uv(3) obtain n where n: "v \<in> lpow A n" "lo - 1 \<le> n" "n \<le> hi - 1"
    unfolding between_iff by blast
  note h = uv(1,2) n
  then have "c # w \<in> lpow A (Suc n)" using concI [of "c # u" A v "lpow A n"] by simp
  moreover from h hi have "lo \<le> Suc n" "Suc n \<le> hi" by auto
  ultimately show "w \<in> lquot c (between A lo hi)"
    unfolding lquot_iff between_iff by blast
qed

lemma lang_deriv: "lang (deriv c r) = lquot c (lang r)"
proof (induction r)
  case (Cat r1 r2)
  then show ?case by (simp add: lquot_conc nullable_lang)
next
  case (Star r)
  then show ?case by (simp add: lquot_star)
next
  case (Plus r)
  then show ?case
    by (auto simp: lquot_conc lquot_star)
next
  case (Rep lo hi r)
  then show ?case by (simp add: lquot_between)
qed (auto simp: lquot_def conc_def)

lemma test_lang: "test r s \<longleftrightarrow> s \<in> lang r"
  unfolding test_def
proof (induction s arbitrary: r)
  case Nil
  show ?case by (simp add: nullable_lang)
next
  case (Cons c s)
  show ?case by (simp add: Cons.IH lang_deriv lquot_def)
qed

section \<open>The languages of the validators' patterns\<close>

lemma cons_in_conc_chars:
  "a # v \<in> conc {w. \<exists>c. w = [c] \<and> P c} B \<longleftrightarrow> P a \<and> v \<in> B"
proof
  assume "a # v \<in> conc {w. \<exists>c. w = [c] \<and> P c} B"
  then show "P a \<and> v \<in> B" by (auto simp: conc_def)
next
  assume "P a \<and> v \<in> B"
  then show "a # v \<in> conc {w. \<exists>c. w = [c] \<and> P c} B"
    using concI [of "[a]" "{w. \<exists>c. w = [c] \<and> P c}" v B] by simp
qed

lemma nil_notin_conc_chars: "[] \<notin> conc {w. \<exists>c. w = [c] \<and> P c} B"
  by (auto simp: conc_def)

lemma lpow_chars:
  "w \<in> lpow {w. \<exists>c. w = [c] \<and> P c} k \<longleftrightarrow> length w = k \<and> (\<forall>c\<in>set w. P c)"
proof (induction k arbitrary: w)
  case 0
  show ?case by auto
next
  case (Suc k)
  show ?case
    by (cases w) (auto simp: cons_in_conc_chars nil_notin_conc_chars Suc.IH)
qed

lemma between_chars:
  "w \<in> between {w. \<exists>c. w = [c] \<and> P c} lo hi \<longleftrightarrow>
     lo \<le> length w \<and> length w \<le> hi \<and> (\<forall>c\<in>set w. P c)"
  by (auto simp: between_iff lpow_chars)

lemma star_chars: "w \<in> star {w. \<exists>c. w = [c] \<and> P c} \<longleftrightarrow> (\<forall>c\<in>set w. P c)"
  by (auto simp: star_def lpow_chars)

lemma in_usernameClass:
  "in_class usernameClass c \<longleftrightarrow>
     letter c \<or> digit c \<or> c = CHR ''-'' \<or> c = CHR ''_'' \<or> c = CHR ''.''"
  by (auto simp: usernameClass_def in_class_def letter_def digit_def)

lemma in_alnumClass: "in_class alnumClass c \<longleftrightarrow> alnum c"
  by (auto simp: alnumClass_def in_class_def alnum_def letter_def digit_def)

lemma in_alnumHyphenClass: "in_class alnumHyphenClass c \<longleftrightarrow> alnum c \<or> c = CHR ''-''"
  by (auto simp: alnumHyphenClass_def in_class_def alnum_def letter_def digit_def)

lemma hyphen_not_alnum: "\<not> alnum CHR ''-''"
  by (simp add: alnum_def letter_def digit_def)

lemma at_not_localChar: "\<not> localChar CHR ''@''"
  by (simp add: localChar_def localClass_def in_class_def)

lemma plus_chars:
  "w \<in> conc {w. \<exists>c. w = [c] \<and> P c} (star {w. \<exists>c. w = [c] \<and> P c}) \<longleftrightarrow>
     w \<noteq> [] \<and> (\<forall>c\<in>set w. P c)"
  by (cases w) (auto simp: cons_in_conc_chars nil_notin_conc_chars star_chars)

text \<open>The language of \<open>labelRegex\<close>.\<close>

lemma lang_labelRegex:
  "w \<in> lang labelRegex \<longleftrightarrow>
     w \<noteq> [] \<and> length w \<le> 63 \<and> alnum (hd w) \<and> alnum (last w) \<and>
     (\<forall>c\<in>set w. alnum c \<or> c = CHR ''-'')"
proof (cases w)
  case Nil
  then show ?thesis by (simp add: labelRegex_def nil_notin_conc_chars)
next
  case (Cons a v)
  show ?thesis
  proof (cases v rule: rev_cases)
    case Nil
    with Cons show ?thesis
      by (auto simp: labelRegex_def cons_in_conc_chars in_alnumClass conc_def)
  next
    case (snoc m b)
    have "m @ [b] \<in> conc (between {w. \<exists>c. w = [c] \<and> in_class alnumHyphenClass c} 0 61)
                      {w. \<exists>c. w = [c] \<and> in_class alnumClass c}
            \<longleftrightarrow> length m \<le> 61 \<and> (\<forall>c\<in>set m. alnum c \<or> c = CHR ''-'') \<and> alnum b"
      by (auto simp: conc_def between_chars in_alnumClass in_alnumHyphenClass)
    with Cons snoc show ?thesis
      by (auto simp: labelRegex_def cons_in_conc_chars in_alnumClass)
  qed
qed

lemma plain_label_lang: "plain_label w \<longleftrightarrow> w \<in> lang labelRegex"
proof -
  have "hd w \<noteq> CHR ''-'' \<longleftrightarrow> alnum (hd w)"
    if "w \<noteq> []" "\<forall>c\<in>set w. alnum c \<or> c = CHR ''-''"
    using that hyphen_not_alnum by (cases w) auto
  moreover have "last w \<noteq> CHR ''-'' \<longleftrightarrow> alnum (last w)"
    if "w \<noteq> []" "\<forall>c\<in>set w. alnum c \<or> c = CHR ''-''"
    using that hyphen_not_alnum last_in_set [of w] by auto
  moreover have "1 \<le> length w \<longleftrightarrow> w \<noteq> []"
    by (cases w) auto
  ultimately show ?thesis
    unfolding lang_labelRegex plain_label_def list_all_iff
    by (cases "w = []") auto
qed

lemma join_split_dots: "join_dots (split_dots d) = d"
proof (induction d)
  case Nil
  show ?case by simp
next
  case (Cons c d)
  show ?case
  proof (cases "split_dots d")
    case Nil
    with Cons show ?thesis by simp
  next
    case (Cons w ws)
    with Cons.IH show ?thesis by (cases ws) auto
  qed
qed

lemma split_dots_not_Nil: "split_dots d \<noteq> []"
  by (cases d) (auto split: list.splits)

lemma conc_cases:
  assumes "w \<in> conc A B"
  obtains u v where "w = u @ v" and "u \<in> A" and "v \<in> B"
  using assms by (auto simp: conc_def)

lemma star_step: "x \<in> A \<Longrightarrow> t \<in> star A \<Longrightarrow> x @ t \<in> star A"
proof -
  assume x: "x \<in> A" and "t \<in> star A"
  then obtain n where "t \<in> lpow A n" by (auto simp: star_def)
  with x have "x @ t \<in> lpow A (Suc n)" using concI [of x A t "lpow A n"] by simp
  then show ?thesis unfolding star_def by blast
qed

text \<open>Labels joined by dots are in the language of the domain part of the pattern.\<close>

lemma join_dots_domain:
  "labels \<noteq> [] \<Longrightarrow> \<forall>w\<in>set labels. w \<in> lang labelRegex \<Longrightarrow>
   join_dots labels \<in> lang (Cat labelRegex (Star (Cat AnyChar labelRegex)))"
proof (induction labels rule: join_dots.induct)
  case 1
  then show ?case by simp
next
  case (2 w)
  then show ?case using concI [of w "lang labelRegex" "[]"] by (simp add: nil_in_star)
next
  case (3 w v ws)
  let ?X = "conc {w. \<exists>c. w = [c] \<and> \<not> line_terminator c} (lang labelRegex)"
  from 3 have "join_dots (v # ws) \<in> conc (lang labelRegex) (star ?X)" by simp
  then obtain l t where lt: "join_dots (v # ws) = l @ t" "l \<in> lang labelRegex" "t \<in> star ?X"
    by (rule conc_cases)
  have "\<not> line_terminator CHR ''.''" by (simp add: line_terminator_def)
  with lt(2) have "CHR ''.'' # l \<in> ?X" by (simp add: cons_in_conc_chars)
  from star_step [OF this lt(3)] lt(1) have "CHR ''.'' # join_dots (v # ws) \<in> star ?X" by simp
  moreover from 3 have "w \<in> lang labelRegex" by simp
  ultimately show ?case
    using concI [of w "lang labelRegex" "CHR ''.'' # join_dots (v # ws)" "star ?X"] by simp
qed

lemma lang_emailRegex:
  "s \<in> lang emailRegex \<longleftrightarrow>
     (\<exists>local d. s = local @ CHR ''@'' # d \<and> local \<noteq> [] \<and> (\<forall>c\<in>set local. localChar c) \<and>
        d \<in> lang (Cat labelRegex (Star (Cat AnyChar labelRegex))))"
proof -
  let ?D = "lang (Cat labelRegex (Star (Cat AnyChar labelRegex)))"
  let ?L = "{w. \<exists>c. w = [c] \<and> in_class localClass c}"
  have "s \<in> lang emailRegex \<longleftrightarrow> s \<in> conc (conc ?L (star ?L)) (conc {[CHR ''@'']} ?D)"
    by (simp add: emailRegex_def)
  also have "\<dots> \<longleftrightarrow> (\<exists>local r. s = local @ r \<and> local \<in> conc ?L (star ?L) \<and> r \<in> conc {[CHR ''@'']} ?D)"
    by (auto simp: conc_def)
  also have "\<dots> \<longleftrightarrow> (\<exists>local d. s = local @ CHR ''@'' # d \<and> local \<in> conc ?L (star ?L) \<and> d \<in> ?D)"
    by (auto simp: conc_def [of "{[CHR ''@'']}"])
  finally show ?thesis by (simp add: plus_chars localChar_def)
qed

lemma split_dots_no_dot: "CHR ''.'' \<notin> set g \<Longrightarrow> split_dots g = [g]"
  by (induction g) auto

lemma split_dots_at_dot:
  "CHR ''.'' \<notin> set g \<Longrightarrow> split_dots (g @ CHR ''.'' # r) = g # split_dots r"
  by (induction g) auto

lemma label_no_dot: "l \<in> lang labelRegex \<Longrightarrow> CHR ''.'' \<notin> set l"
proof
  assume "l \<in> lang labelRegex" and "CHR ''.'' \<in> set l"
  then have "alnum CHR ''.'' \<or> CHR ''.'' = CHR ''-''" unfolding lang_labelRegex by blast
  then show False by (simp add: alnum_def letter_def digit_def)
qed

text \<open>
  Whatever the separators are, each piece between two dots of a string of the domain
  part begins where a label begins and ends where a label ends.
\<close>

lemma pieces_edges:
  "g \<noteq> [] \<Longrightarrow> alnum (hd g) \<Longrightarrow> alnum (last g) \<Longrightarrow> CHR ''.'' \<notin> set g \<Longrightarrow>
   t \<in> lpow (conc {w. \<exists>c. w = [c] \<and> P c} (lang labelRegex)) k \<Longrightarrow>
   \<forall>w\<in>set (split_dots (g @ t)). edge_label w"
proof (induction k arbitrary: g t)
  case 0
  then show ?case by (simp add: split_dots_no_dot edge_label_def)
next
  case (Suc k)
  let ?X = "conc {w. \<exists>c. w = [c] \<and> P c} (lang labelRegex)"
  from Suc.prems(5) have "t \<in> conc ?X (lpow ?X k)" by simp
  then obtain x t' where xt: "t = x @ t'" "x \<in> ?X" "t' \<in> lpow ?X k"
    by (rule conc_cases)
  from xt(2) obtain c l where x: "x = c # l" "l \<in> lang labelRegex"
    by (cases x) (auto simp: cons_in_conc_chars nil_notin_conc_chars)
  from x(2) have l: "l \<noteq> []" "alnum (hd l)" "alnum (last l)" "CHR ''.'' \<notin> set l"
    by (simp_all add: lang_labelRegex label_no_dot)
  show ?case
  proof (cases "c = CHR ''.''")
    case True
    from Suc.IH [OF l xt(3)] have "\<forall>w\<in>set (split_dots (l @ t')). edge_label w" .
    with Suc.prems(1-4) xt(1) x(1) True show ?thesis
      by (simp add: split_dots_at_dot edge_label_def)
  next
    case False
    with Suc.prems(1-4) l have
      "g @ c # l \<noteq> []" "alnum (hd (g @ c # l))" "alnum (last (g @ c # l))"
      "CHR ''.'' \<notin> set (g @ c # l)"
      by auto
    from Suc.IH [OF this xt(3)] xt(1) x(1) show ?thesis by simp
  qed
qed

lemma domain_pieces:
  assumes "d \<in> lang (Cat labelRegex (Star (Cat AnyChar labelRegex)))"
  shows "\<forall>w\<in>set (split_dots d). edge_label w"
proof -
  let ?X = "conc {w. \<exists>c. w = [c] \<and> \<not> line_terminator c} (lang labelRegex)"
  from assms have "d \<in> conc (lang labelRegex) (star ?X)" by simp
  then obtain l t where lt: "d = l @ t" "l \<in> lang labelRegex" "t \<in> star ?X"
    by (rule conc_cases)
  from lt(3) obtain k where k: "t \<in> lpow ?X k" by (auto simp: star_def)
  from lt(2) have "l \<noteq> []" "alnum (hd l)" "alnum (last l)" "CHR ''.'' \<notin> set l"
    by (simp_all add: lang_labelRegex label_no_dot)
  from pieces_edges [OF this k] lt(1) show ?thesis by simp
qed

lemma split_at_sign:
  assumes "\<forall>c\<in>set local. localChar c"
  shows "takeWhile (\<lambda>c. c \<noteq> CHR ''@'') (local @ CHR ''@'' # d) = local"
    and "dropWhile (\<lambda>c. c \<noteq> CHR ''@'') (local @ CHR ''@'' # d) = CHR ''@'' # d"
proof -
  from assms at_not_localChar have "\<forall>c\<in>set local. c \<noteq> CHR ''@''" by blast
  then show "takeWhile (\<lambda>c. c \<noteq> CHR ''@'') (local @ CHR ''@'' # d) = local"
    and "dropWhile (\<lambda>c. c \<noteq> CHR ''@'') (local @ CHR ''@'' # d) = CHR ''@'' # d"
    by (simp_all add: takeWhile_append2 dropWhile_append2)
qed

lemma email_pattern_accepted:
  assumes "email_pattern plain_label s"
  shows "isEmailValid s"
proof -
  let ?local = "takeWhile (\<lambda>c. c \<noteq> CHR ''@'') s"
  let ?rest = "dropWhile (\<lambda>c. c \<noteq> CHR ''@'') s"
  from assms have p: "?local \<noteq> []" "\<forall>c\<in>set ?local. localChar c" "?rest \<noteq> []"
    "\<forall>w\<in>set (split_dots (tl ?rest)). plain_label w"
    by (simp_all add: email_pattern_def Let_def list_all_iff)
  from p(3) have "hd ?rest = CHR ''@''" using hd_dropWhile [of "\<lambda>c. c \<noteq> CHR ''@''" s] by simp
  with p(3) have rest: "?rest = CHR ''@'' # tl ?rest" by (cases ?rest) auto
  have "s = ?local @ ?rest" by simp
  with rest have s: "s = ?local @ CHR ''@'' # tl ?rest" by simp
  from p(4) have "\<forall>w\<in>set (split_dots (tl ?rest)). w \<in> lang labelRegex"
    by (simp add: plain_label_lang)
  from join_dots_domain [OF split_dots_not_Nil this]
  have "tl ?rest \<in> lang (Cat labelRegex (Star (Cat AnyChar labelRegex)))"
    by (simp add: join_split_dots)
  with p(1,2) s have "s \<in> lang emailRegex" unfolding lang_emailRegex by blast
  moreover from p(1) have "s \<noteq> []" by auto
  ultimately show ?thesis by (simp add: isEmailValid_def test_lang)
qed

lemma accepted_email_shape:
  assumes "isEmailValid s"
  shows "s \<noteq> [] \<and> email_pattern edge_label s"
proof -
  from assms have "s \<noteq> []" "s \<in> lang emailRegex" by (simp_all add: isEmailValid_def test_lang)
  from this(2) obtain local d where
    h: "s = local @ CHR ''@'' # d" "local \<noteq> []" "\<forall>c\<in>set local. localChar c"
       "d \<in> lang (Cat labelRegex (Star (Cat AnyChar labelRegex)))"
    unfolding lang_emailRegex by blast
  from domain_pieces [OF h(4)] h(1,2,3) split_at_sign [OF h(3), of d] \<open>s \<noteq> []\<close> show ?thesis
    by (simp add: email_pattern_def Let_def list_all_iff)
qed

section \<open>The submit handler, outcome by outcome\<close>

lemma flags_written:
  "onValidityChanged ''companyName'' v5
     (onValidityChanged ''fullName'' v4
       (onValidityChanged ''username'' v3
         (onValidityChanged ''password'' v2
           (onValidityChanged ''email'' v1 st)))) =
   st\<lparr>emailValidity := v1, passwordValidity := v2, usernameValidity := v3,
      fullNameValidity := v4, companyNameValidity := v5\<rparr>"
  by (simp add: onValidityChanged_def)

lemma attr_email_build: "attr_email (buildAttributes props s) = email s"
  by (simp add: buildAttributes_def)

lemma run_blocked:
  "gateBlocks props s \<Longrightarrow> onSubmit props s response = (afterValidation s, [PreventDefault])"
  by (simp add: onSubmit_def flags_written afterValidation_def)

lemma run_throws:
  "\<not> gateBlocks props s \<Longrightarrow>
   onSubmit props s (Throws err) =
     ((afterValidation s)\<lparr>isLoading := False, unexpectedError := True\<rparr>,
      [PreventDefault, Send (buildAttributes props s),
       LogError (''Unexpected error during registration request: '' @ err)
         \<lparr>log_email = email s, log_inviteCode = props_inviteCode props\<rparr>])"
  by (simp add: onSubmit_def flags_written afterValidation_def tryBlock_def Let_def)

lemma run_other:
  "\<not> gateBlocks props s \<Longrightarrow>
   onSubmit props s (Returns (OtherStatus err) token) =
     ((afterValidation s)\<lparr>isLoading := False, unexpectedError := True\<rparr>,
      [PreventDefault, Send (buildAttributes props s),
       LogError (''Unexpected error during registration request: '' @ err)
         \<lparr>log_email = email s, log_inviteCode = props_inviteCode props\<rparr>])"
  by (simp add: onSubmit_def flags_written afterValidation_def tryBlock_def Let_def)

lemma run_success:
  "\<not> gateBlocks props s \<Longrightarrow>
   onSubmit props s (Returns Success token) =
     ((afterValidation s)\<lparr>isLoading := False\<rparr>,
      [PreventDefault, Send (buildAttributes props s), sendTelemetry props s,
       Dispatch (goToEmailConfirmation (email s) (props_teamId props) (buildAttributes props s))])"
  by (simp add: onSubmit_def flags_written afterValidation_def tryBlock_def Let_def attr_email_build)

lemma run_notOnTeam:
  "\<not> gateBlocks props s \<Longrightarrow>
   onSubmit props s (Returns NotOnTeam token) =
     ((afterValidation s)\<lparr>isLoading := False\<rparr>,
      [PreventDefault, Send (buildAttributes props s), sendTelemetry props s,
       Dispatch (goToTeamCreation token (email s))])"
  by (simp add: onSubmit_def flags_written afterValidation_def tryBlock_def Let_def attr_email_build)

lemma run_alreadyConfirmed:
  "\<not> gateBlocks props s \<Longrightarrow>
   onSubmit props s (Returns AlreadyConfirmed token) =
     ((afterValidation s)\<lparr>isLoading := False\<rparr>,
      [PreventDefault, Send (buildAttributes props s), sendTelemetry props s,
       Dispatch (completeSignup (email s) token (props_teamId props) False)])"
  by (simp add: onSubmit_def flags_written afterValidation_def tryBlock_def Let_def attr_email_build)

lemma run_inviteConflict:
  "\<not> gateBlocks props s \<Longrightarrow>
   onSubmit props s (Returns InviteConflict token) =
     ((afterValidation s)\<lparr>isLoading := False, inviteConflict := True\<rparr>,
      [PreventDefault, Send (buildAttributes props s)])"
  by (simp add: onSubmit_def flags_written afterValidation_def tryBlock_def Let_def)

lemmas run_passed =
  run_throws run_other run_success run_notOnTeam
  run_alreadyConfirmed run_inviteConflict

lemma response_cases:
  obtains err where "response = Throws err"
  | err token where "response = Returns (OtherStatus err) token"
  | token where "response = Returns Success token"
  | token where "response = Returns NotOnTeam token"
  | token where "response = Returns AlreadyConfirmed token"
  | token where "response = Returns InviteConflict token"
proof (cases response)
  case (Throws e)
  then show ?thesis using that by blast
next
  case (Returns st tok)
  then show ?thesis using that by (cases st) blast+
qed

lemma onSubmit_clears_isLoading:
  "\<not> gateBlocks props s \<Longrightarrow> \<not> isLoading (fst (onSubmit props s response))"
  by (cases response rule: response_cases) (simp_all add: run_passed)

lemma onSubmit_sends:
  "\<not> gateBlocks props s \<Longrightarrow>
   Send a \<in> set (snd (onSubmit props s response)) \<longleftrightarrow> a = buildAttributes props s"
  by (cases response rule: response_cases) (auto simp: run_passed sendTelemetry_def)

lemma onSubmit_flags:
  "companyNameValidity (fst (onSubmit props s response)) = isNotEmpty (companyName s)"
  by (cases "gateBlocks props s"; cases response rule: response_cases)
     (simp_all add: run_passed run_blocked afterValidation_def)

section \<open>The validators: claims\<close>

text \<open>
  C8. The username validator is true of \<open>s\<close> exactly when \<open>s\<close> has between 1 and 21
  characters and each of them is a letter, a digit, a hyphen, an underscore or a dot.
\<close>

theorem isUsernameValid_iff:
  "isUsernameValid s \<longleftrightarrow>
     1 \<le> length s \<and> length s \<le> 21 \<and>
     (\<forall>c\<in>set s. letter c \<or> digit c \<or> c = CHR ''-'' \<or> c = CHR ''_'' \<or> c = CHR ''.'')"
  by (simp add: isUsernameValid_def test_lang usernameRegex_def between_chars in_usernameClass)

theorem isUsernameValid_iff_witness:
  "isUsernameValid ''a.b-c_9'' \<and> \<not> isUsernameValid [] \<and>
   \<not> isUsernameValid ''abcdefghijklmnopqrstuv'' \<and> \<not> isUsernameValid ''a b''"
  using isUsernameValid_iff [of "''a.b-c_9''"] isUsernameValid_iff [of "[]"]
    isUsernameValid_iff [of "''abcdefghijklmnopqrstuv''"] isUsernameValid_iff [of "''a b''"]
  by (simp add: letter_def digit_def)

text \<open>
  C2, as stated, fails: the email validator accepts \<^verbatim>\<open>a@b--c.co\<close>, whose first label has
  two consecutive hyphens, and the documented pattern does not. The class
  \<^verbatim>\<open>[a-zA-Z0-9-]{0,61}\<close> admits any run of hyphens inside a label.
\<close>

theorem isEmailValid_consecutive_hyphens:
  "isEmailValid ''a@b--c.co'' \<and> \<not> documented_email ''a@b--c.co''"
  by code_simp

text \<open>
  C2, amended. Every string of the shape \<^emph>\<open>non-empty local part of local-part characters,
  \<^verbatim>\<open>@\<close>, labels separated by literal dots\<close>, each label having 1 to 63 alphanumeric-or-hyphen
  characters and neither a leading nor a trailing hyphen, is accepted by the email
  validator. Every string that the validator accepts is non-empty, has a non-empty run
  of local-part characters before its first \<^verbatim>\<open>@\<close>, and each piece between the dots of what
  follows that \<^verbatim>\<open>@\<close> is non-empty and begins and ends with an alphanumeric character.
  So \<^verbatim>\<open>a@b.co\<close> is accepted, the empty string and \<^verbatim>\<open>a@@b.com\<close> are not.
\<close>

theorem isEmailValid_amended:
  "(email_pattern plain_label s \<longrightarrow> isEmailValid s) \<and>
   (isEmailValid s \<longrightarrow> s \<noteq> [] \<and> email_pattern edge_label s)"
  using email_pattern_accepted accepted_email_shape by blast

theorem isEmailValid_amended_witness:
  "email_pattern plain_label ''a@b.co'' \<and> isEmailValid ''a@b.co'' \<and>
   \<not> isEmailValid [] \<and> \<not> isEmailValid ''a@@b.com''"
  using isEmailValid_amended [of "''a@b.co''"] isEmailValid_amended [of "[]"]
    isEmailValid_amended [of "''a@@b.com''"]
  by (simp add: email_pattern_def plain_label_def edge_label_def localChar_def localClass_def
      in_class_def alnum_def letter_def digit_def)

text \<open>
  The two halves of the amended statement do not meet: the separator of the source
  pattern is the wildcard, so a second \<^verbatim>\<open>@\<close> can stand where a dot is expected.
\<close>

lemma isEmailValid_wildcard_separator:
  "isEmailValid ''a@b@c'' \<and> \<not> email_pattern plain_label ''a@b@c''"
  by code_simp

section \<open>The validity-change callback\<close>

text \<open>
  C10. A call of the validity-change callback with a field name that is none of
  \<open>email\<close>, \<open>username\<close>, \<open>password\<close>, \<open>fullName\<close>, \<open>companyName\<close> leaves the five
  validity flags as they are, whatever the boolean (the default branch of the switch is
  empty, so the whole state is left as it is).
\<close>

theorem onValidityChanged_unknown_field:
  assumes "field \<notin> {''email'', ''username'', ''password'', ''fullName'', ''companyName''}"
  shows "emailValidity (onValidityChanged field validity st) = emailValidity st
       \<and> usernameValidity (onValidityChanged field validity st) = usernameValidity st
       \<and> passwordValidity (onValidityChanged field validity st) = passwordValidity st
       \<and> fullNameValidity (onValidityChanged field validity st) = fullNameValidity st
       \<and> companyNameValidity (onValidityChanged field validity st) = companyNameValidity st
       \<and> onValidityChanged field validity st = st"
  using assms by (simp add: onValidityChanged_def)

theorem onValidityChanged_unknown_field_witness:
  "''phone'' \<notin> {''email'', ''username'', ''password'', ''fullName'', ''companyName''}
   \<and> emailValidity (onValidityChanged ''phone'' False (initialState newUserProps)) = True
   \<and> companyNameValidity (onValidityChanged ''phone'' False (initialState newUserProps)) = True
   \<and> onValidityChanged ''phone'' False (initialState newUserProps) = initialState newUserProps"
  using onValidityChanged_unknown_field [of "''phone''" False "initialState newUserProps"]
  by (simp add: initialState_def newUserProps_def)

section \<open>The submit handler: claims\<close>

lemma isEmailValid_ann: "isEmailValid ''ann@acme.io''"
  by code_simp

lemma isUsernameValid_ann: "isUsernameValid ''ann''"
  by code_simp

lemma isUsernameValid_empty: "\<not> isUsernameValid []"
  by (simp add: isUsernameValid_def test_def usernameRegex_def)

lemma isEmailValid_empty: "\<not> isEmailValid []"
  by (simp add: isEmailValid_def)

lemma gateBlocks_filled: "\<not> gateBlocks props filledState"
  by (simp add: gateBlocks_def filledState_def)

lemma afterValidation_filled: "afterValidation filledState = filledState"
  by (simp add: afterValidation_def filledState_def isEmailValid_ann isUsernameValid_ann
      isPasswordValid_def isNotEmpty_def)

text \<open>
  What the gate guarantees. Whenever the condition of the handler holds of the rendered
  state (an empty email, password, fullName or, when not invited, companyName, or a
  validity flag that is false in that state), the attempt aborts: nothing is sent to
  the registration endpoint, nothing is dispatched, tracked or logged (the only call is
  \<^verbatim>\<open>event.preventDefault()\<close>), and the state changes in the five validity flags only:
  isLoading keeps its value, the two banners are cleared and stay cleared, the text
  fields are kept.
\<close>

lemma onSubmit_gate_aborts:
  assumes "email s = [] \<or> \<not> emailValidity s \<or> \<not> usernameValidity s \<or>
           password s = [] \<or> \<not> passwordValidity s \<or>
           fullName s = [] \<or> \<not> fullNameValidity s \<or>
           (\<not> wasInvited props \<and> (companyName s = [] \<or> \<not> companyNameValidity s))"
  shows "snd (onSubmit props s response) = [PreventDefault]
       \<and> fst (onSubmit props s response) =
           s\<lparr>emailValidity := isEmailValid (email s),
             usernameValidity := isUsernameValid (username s),
             passwordValidity := isPasswordValid (password s),
             fullNameValidity := isNotEmpty (fullName s),
             companyNameValidity := isNotEmpty (companyName s),
             unexpectedError := False, inviteConflict := False\<rparr>
       \<and> isLoading (fst (onSubmit props s response)) = isLoading s
       \<and> \<not> unexpectedError (fst (onSubmit props s response))
       \<and> \<not> inviteConflict (fst (onSubmit props s response))"
proof -
  from assms have "gateBlocks props s" by (simp add: gateBlocks_def)
  then show ?thesis by (simp add: run_blocked afterValidation_def)
qed

lemma onSubmit_gate_aborts_example:
  "\<not> passwordValidity (filledState\<lparr>password := ''abc'', passwordValidity := False\<rparr>)
   \<and> snd (onSubmit newUserProps (filledState\<lparr>password := ''abc'', passwordValidity := False\<rparr>)
         (Returns Success None)) = [PreventDefault]
   \<and> fst (onSubmit newUserProps (filledState\<lparr>password := ''abc'', passwordValidity := False\<rparr>)
         (Returns Success None)) = filledState\<lparr>password := ''abc'', passwordValidity := False\<rparr>"
  using onSubmit_gate_aborts [of "filledState\<lparr>password := ''abc'', passwordValidity := False\<rparr>"
      newUserProps "Returns Success None"]
  by (simp add: filledState_def isEmailValid_ann isUsernameValid_ann isPasswordValid_def
      isNotEmpty_def)

text \<open>
  When the rendered flags agree with the validators on the rendered text, as they do
  for a field validated since its last change, the condition can be read off the
  validators: a submit attempt with a field that fails its validator aborts.
\<close>

lemma onSubmit_aborts_when_validators_fail:
  assumes "emailValidity s = isEmailValid (email s)"
    and "usernameValidity s = isUsernameValid (username s)"
    and "passwordValidity s = isPasswordValid (password s)"
    and "fullNameValidity s = isNotEmpty (fullName s)"
    and "companyNameValidity s = isNotEmpty (companyName s)"
    and "\<not> isEmailValid (email s) \<or> \<not> isUsernameValid (username s) \<or>
         \<not> isPasswordValid (password s) \<or> \<not> isNotEmpty (fullName s) \<or>
         (\<not> wasInvited props \<and> \<not> isNotEmpty (companyName s))"
  shows "snd (onSubmit props s response) = [PreventDefault]"
proof -
  from assms have "gateBlocks props s" by (auto simp: gateBlocks_def)
  then show ?thesis by (simp add: run_blocked)
qed

text \<open>
  C1. A submit attempt in which email is empty or invalid, or username invalid, or
  password empty or invalid, or fullName empty or invalid, or (not invited and
  companyName empty or invalid) should abort with no call to the registration endpoint,
  no navigation and no telemetry. The handler recomputes the five validity flags and
  then tests them, but the flags it tests are the bindings of the render that created
  it: the recomputed values reach the next render only. So the code does not abort an
  attempt whose field fails its validator while its rendered flag is still true. On a
  form opened without an invitation, with email, password, fullName and companyName
  filled validly and the username never touched (empty, flag still the initial
  \<open>True\<close>), the username validator is false, yet the request is sent with the empty
  username and, on a \<open>Success\<close> answer, telemetry is emitted and navigation dispatched;
  only the state after the attempt holds the false flag.
\<close>

theorem onSubmit_sends_invalid_username:
  "\<not> isUsernameValid (username (filledState\<lparr>username := []\<rparr>))
   \<and> usernameValidity (filledState\<lparr>username := []\<rparr>)
   \<and> snd (onSubmit newUserProps (filledState\<lparr>username := []\<rparr>) (Returns Success None)) =
       [PreventDefault,
        Send \<lparr>attr_email = ''ann@acme.io'', attr_username = [], attr_password = ''secret1'',
              attr_fullName = ''Ann Lee'', attr_inviteCode = None,
              attr_companyName = Some ''Acme''\<rparr>,
        Track ''Account Created''
          \<lparr>track_email = ''ann@acme.io'', track_changedInviteEmail = None\<rparr>,
        Dispatch (goToEmailConfirmation ''ann@acme.io'' None
          \<lparr>attr_email = ''ann@acme.io'', attr_username = [], attr_password = ''secret1'',
            attr_fullName = ''Ann Lee'', attr_inviteCode = None,
            attr_companyName = Some ''Acme''\<rparr>)]
   \<and> \<not> usernameValidity
         (fst (onSubmit newUserProps (filledState\<lparr>username := []\<rparr>) (Returns Success None)))"
proof -
  have "\<not> gateBlocks newUserProps (filledState\<lparr>username := []\<rparr>)"
    by (simp add: gateBlocks_def filledState_def)
  then show ?thesis
    by (simp add: run_success afterValidation_def isUsernameValid_empty sendTelemetry_def
        buildAttributes_def wasInvited_def)
      (simp add: filledState_def newUserProps_def)
qed

text \<open>
  C3. When the awaited registration call answers \<open>Success\<close>, the handler sends the
  attributes, then emits the telemetry event \<^verbatim>\<open>"Account Created"\<close> with the submitted
  email and with \<^verbatim>\<open>"Changed Invite Email?"\<close> set only when invited (to whether the
  submitted email differs from the email of the props), and then dispatches
  \<^verbatim>\<open>goToEmailConfirmation\<close> once, carrying the very attributes that were sent. The call
  is awaited only by an attempt that passed the gate, which is the hypothesis.
\<close>

theorem onSubmit_success:
  assumes "\<not> gateBlocks props s"
  shows "snd (onSubmit props s (Returns Success token)) =
           [PreventDefault,
            Send (buildAttributes props s),
            Track ''Account Created''
              \<lparr>track_email = email s,
               track_changedInviteEmail =
                 (if wasInvited props then Some (Some (email s) \<noteq> props_email props) else None)\<rparr>,
            Dispatch (goToEmailConfirmation (email s) (props_teamId props)
              (buildAttributes props s))]"
  using assms by (simp add: run_success sendTelemetry_def)

theorem onSubmit_success_witness:
  "\<not> gateBlocks invitedProps filledState
   \<and> snd (onSubmit invitedProps filledState (Returns Success None)) =
       [PreventDefault,
        Send \<lparr>attr_email = ''ann@acme.io'', attr_username = ''ann'', attr_password = ''secret1'',
              attr_fullName = ''Ann Lee'', attr_inviteCode = Some ''inv42'',
              attr_companyName = None\<rparr>,
        Track ''Account Created''
          \<lparr>track_email = ''ann@acme.io'', track_changedInviteEmail = Some False\<rparr>,
        Dispatch (goToEmailConfirmation ''ann@acme.io'' (Some ''t1'')
          \<lparr>attr_email = ''ann@acme.io'', attr_username = ''ann'', attr_password = ''secret1'',
            attr_fullName = ''Ann Lee'', attr_inviteCode = Some ''inv42'',
            attr_companyName = None\<rparr>)]"
  using onSubmit_success [of invitedProps filledState None]
  by (simp add: gateBlocks_def filledState_def invitedProps_def buildAttributes_def
      wasInvited_def)

text \<open>
  C4. When the registration call throws, or answers a status outside the four that the
  handler names, the error is logged with the email and the invite code as context,
  unexpectedError becomes true, nothing is dispatched, and isLoading is false at the end
  of the attempt. Whatever the call settles as, an attempt that passed the gate (and so
  set isLoading) ends with isLoading false.
\<close>

theorem onSubmit_unexpected_error:
  assumes "\<not> gateBlocks props s"
    and "response = Throws err \<or> response = Returns (OtherStatus err) token"
  shows "snd (onSubmit props s response) =
           [PreventDefault,
            Send (buildAttributes props s),
            LogError (''Unexpected error during registration request: '' @ err)
              \<lparr>log_email = email s, log_inviteCode = props_inviteCode props\<rparr>]
       \<and> unexpectedError (fst (onSubmit props s response))
       \<and> \<not> isLoading (fst (onSubmit props s response))
       \<and> (\<forall>a. Dispatch a \<notin> set (snd (onSubmit props s response)))
       \<and> (\<forall>r. \<not> isLoading (fst (onSubmit props s r)))"
  using assms by (auto simp: run_throws run_other onSubmit_clears_isLoading)

theorem onSubmit_unexpected_error_witness:
  "\<not> gateBlocks newUserProps filledState
   \<and> snd (onSubmit newUserProps filledState (Throws ''timeout'')) =
       [PreventDefault,
        Send \<lparr>attr_email = ''ann@acme.io'', attr_username = ''ann'', attr_password = ''secret1'',
              attr_fullName = ''Ann Lee'', attr_inviteCode = None,
              attr_companyName = Some ''Acme''\<rparr>,
        LogError ''Unexpected error during registration request: timeout''
          \<lparr>log_email = ''ann@acme.io'', log_inviteCode = None\<rparr>]
   \<and> unexpectedError (fst (onSubmit newUserProps filledState (Throws ''timeout'')))
   \<and> \<not> isLoading (fst (onSubmit newUserProps filledState (Throws ''timeout'')))
   \<and> \<not> isLoading (fst (onSubmit newUserProps filledState (Returns (OtherStatus ''LOCKED'') None)))"
  using onSubmit_unexpected_error [of newUserProps filledState "Throws ''timeout''" "''timeout''" None]
  by (simp add: gateBlocks_def filledState_def newUserProps_def buildAttributes_def
      wasInvited_def)

text \<open>
  C5. When the registration call answers \<open>InviteConflict\<close>, nothing is dispatched, no
  telemetry is emitted, no error is logged, and inviteConflict becomes true; the attempt
  ends with isLoading and unexpectedError false, so the form can be edited again.
\<close>

theorem onSubmit_invite_conflict:
  assumes "\<not> gateBlocks props s"
  shows "snd (onSubmit props s (Returns InviteConflict token)) =
           [PreventDefault, Send (buildAttributes props s)]
       \<and> inviteConflict (fst (onSubmit props s (Returns InviteConflict token)))
       \<and> \<not> unexpectedError (fst (onSubmit props s (Returns InviteConflict token)))
       \<and> \<not> isLoading (fst (onSubmit props s (Returns InviteConflict token)))
       \<and> (\<forall>a. Dispatch a \<notin> set (snd (onSubmit props s (Returns InviteConflict token))))
       \<and> (\<forall>n p. Track n p \<notin> set (snd (onSubmit props s (Returns InviteConflict token))))
       \<and> (\<forall>m c. LogError m c \<notin> set (snd (onSubmit props s (Returns InviteConflict token))))"
  using assms by (simp add: run_inviteConflict afterValidation_def)

theorem onSubmit_invite_conflict_witness:
  "\<not> gateBlocks invitedProps filledState
   \<and> snd (onSubmit invitedProps filledState (Returns InviteConflict None)) =
       [PreventDefault,
        Send \<lparr>attr_email = ''ann@acme.io'', attr_username = ''ann'', attr_password = ''secret1'',
              attr_fullName = ''Ann Lee'', attr_inviteCode = Some ''inv42'',
              attr_companyName = None\<rparr>]
   \<and> fst (onSubmit invitedProps filledState (Returns InviteConflict None)) =
       filledState\<lparr>inviteConflict := True\<rparr>"
  using onSubmit_invite_conflict [of invitedProps filledState None]
    run_inviteConflict [of invitedProps filledState None]
  by (simp add: gateBlocks_def afterValidation_filled buildAttributes_def wasInvited_def)
    (simp add: filledState_def invitedProps_def)

text \<open>
  C6. With an invite code in the props, companyName plays no part in the gate: the
  request is sent exactly when the conditions on email, username, password and fullName
  hold, whatever companyName and its flag are (an empty companyName included), and
  every request that is sent has no companyName.
\<close>

theorem invited_companyName_not_required:
  assumes "wasInvited props"
  shows "((\<exists>a. Send a \<in> set (snd (onSubmit props s response))) \<longleftrightarrow>
            email s \<noteq> [] \<and> emailValidity s \<and> usernameValidity s \<and>
            password s \<noteq> [] \<and> passwordValidity s \<and> fullName s \<noteq> [] \<and> fullNameValidity s)
       \<and> (\<forall>a. Send a \<in> set (snd (onSubmit props s response)) \<longrightarrow> attr_companyName a = None)"
proof (cases "gateBlocks props s")
  case True
  with assms show ?thesis by (auto simp: run_blocked gateBlocks_def)
next
  case False
  with assms show ?thesis by (auto simp: onSubmit_sends gateBlocks_def buildAttributes_def)
qed

theorem invited_companyName_not_required_witness:
  "wasInvited invitedProps
   \<and> companyName (filledState\<lparr>companyName := []\<rparr>) = []
   \<and> Send \<lparr>attr_email = ''ann@acme.io'', attr_username = ''ann'', attr_password = ''secret1'',
            attr_fullName = ''Ann Lee'', attr_inviteCode = Some ''inv42'',
            attr_companyName = None\<rparr>
       \<in> set (snd (onSubmit invitedProps (filledState\<lparr>companyName := []\<rparr>)
                 (Returns NotOnTeam (Some ''tok''))))"
proof -
  have inv: "wasInvited invitedProps" by (simp add: wasInvited_def invitedProps_def)
  have "\<exists>a. Send a \<in> set (snd (onSubmit invitedProps (filledState\<lparr>companyName := []\<rparr>)
                 (Returns NotOnTeam (Some ''tok''))))"
    using invited_companyName_not_required [OF inv, of "filledState\<lparr>companyName := []\<rparr>"
        "Returns NotOnTeam (Some ''tok'')"]
    by (simp add: filledState_def)
  moreover have "\<not> gateBlocks invitedProps (filledState\<lparr>companyName := []\<rparr>)"
    using inv by (simp add: gateBlocks_def filledState_def)
  ultimately show ?thesis
    using inv by (simp add: onSubmit_sends buildAttributes_def)
      (simp add: filledState_def invitedProps_def)
qed

text \<open>
  C7. Submitting with the five text fields empty sends nothing to the registration
  endpoint (the only call is \<^verbatim>\<open>event.preventDefault()\<close>) and leaves the five validity flags
  false.
\<close>

theorem onSubmit_all_empty:
  assumes "email s = []" and "username s = []" and "password s = []"
    and "fullName s = []" and "companyName s = []"
  shows "snd (onSubmit props s response) = [PreventDefault]
       \<and> \<not> emailValidity (fst (onSubmit props s response))
       \<and> \<not> usernameValidity (fst (onSubmit props s response))
       \<and> \<not> passwordValidity (fst (onSubmit props s response))
       \<and> \<not> fullNameValidity (fst (onSubmit props s response))
       \<and> \<not> companyNameValidity (fst (onSubmit props s response))"
proof -
  from assms(1) have "gateBlocks props s" by (simp add: gateBlocks_def)
  with assms show ?thesis
    by (simp add: run_blocked afterValidation_def isEmailValid_empty isUsernameValid_empty
        isPasswordValid_def isNotEmpty_def)
qed

theorem onSubmit_all_empty_witness:
  "email (initialState newUserProps) = [] \<and> username (initialState newUserProps) = []
   \<and> password (initialState newUserProps) = [] \<and> fullName (initialState newUserProps) = []
   \<and> companyName (initialState newUserProps) = []
   \<and> snd (onSubmit newUserProps (initialState newUserProps) (Returns Success None)) =
       [PreventDefault]
   \<and> \<not> emailValidity
        (fst (onSubmit newUserProps (initialState newUserProps) (Returns Success None)))
   \<and> \<not> usernameValidity
        (fst (onSubmit newUserProps (initialState newUserProps) (Returns Success None)))
   \<and> \<not> passwordValidity
        (fst (onSubmit newUserProps (initialState newUserProps) (Returns Success None)))
   \<and> \<not> fullNameValidity
        (fst (onSubmit newUserProps (initialState newUserProps) (Returns Success None)))
   \<and> \<not> companyNameValidity
        (fst (onSubmit newUserProps (initialState newUserProps) (Returns Success None)))"
proof -
  have "email (initialState newUserProps) = []"
    by (simp add: initialState_def newUserProps_def)
  moreover have "username (initialState newUserProps) = []"
    and "password (initialState newUserProps) = []"
    and "fullName (initialState newUserProps) = []"
    and "companyName (initialState newUserProps) = []"
    by (simp_all add: initialState_def)
  ultimately show ?thesis
    using onSubmit_all_empty [of "initialState newUserProps" newUserProps "Returns Success None"]
    by simp
qed

text \<open>
  C9. Every submit attempt, invited or not, blocked or not, leaves companyNameValidity
  equal to the non-emptiness of companyName. So an invited form with an empty
  companyName, whose other fields pass the gate, ends the attempt with
  companyNameValidity false although the request was sent. (That the field is not
  rendered for an invited form is part of the returned markup, which is not modelled.)
\<close>

theorem companyNameValidity_recomputed:
  "companyNameValidity (fst (onSubmit props s response)) = (companyName s \<noteq> [])
   \<and> (wasInvited props \<and> companyName s = [] \<and> email s \<noteq> [] \<and> emailValidity s \<and>
      usernameValidity s \<and> password s \<noteq> [] \<and> passwordValidity s \<and> fullName s \<noteq> [] \<and>
      fullNameValidity s \<longrightarrow>
        \<not> companyNameValidity (fst (onSubmit props s response)) \<and>
        Send (buildAttributes props s) \<in> set (snd (onSubmit props s response)))"
proof -
  have flag: "companyNameValidity (fst (onSubmit props s response)) = (companyName s \<noteq> [])"
    by (simp add: onSubmit_flags isNotEmpty_def)
  have "Send (buildAttributes props s) \<in> set (snd (onSubmit props s response))"
    if "\<not> gateBlocks props s"
    using that by (simp add: onSubmit_sends)
  then show ?thesis using flag by (auto simp: gateBlocks_def)
qed

theorem companyNameValidity_recomputed_witness:
  "wasInvited invitedProps
   \<and> companyName (filledState\<lparr>companyName := []\<rparr>) = []
   \<and> \<not> companyNameValidity
        (fst (onSubmit invitedProps (filledState\<lparr>companyName := []\<rparr>) (Returns Success None)))
   \<and> Send (buildAttributes invitedProps (filledState\<lparr>companyName := []\<rparr>))
        \<in> set (snd (onSubmit invitedProps (filledState\<lparr>companyName := []\<rparr>)
                  (Returns Success None)))"
  using companyNameValidity_recomputed [of invitedProps "filledState\<lparr>companyName := []\<rparr>"
      "Returns Success None"]
  by (simp add: wasInvited_def invitedProps_def filledState_def)

end
